theory Spec2Isabelle
  imports Main
begin

section \<open>The Python values that ical2org.py computes with\<close>

text \<open>
  The recurrence expansion of \<^verbatim>\<open>ical2org.py\<close> works on time-zone aware
  \<^verbatim>\<open>datetime\<close> values, \<^verbatim>\<open>timedelta\<close> values and the zones of \<^verbatim>\<open>pytz\<close>.
  These library values are modelled as follows.
  \<^item> A \<^verbatim>\<open>timedelta\<close> is an \<open>int\<close>, a number of microseconds.
  \<^item> An aware \<^verbatim>\<open>datetime\<close> is its wall-clock reading \<open>naive\<close> (microseconds since
    0001-01-01T00:00 on the proleptic Gregorian calendar), the UTC offset \<open>utcoff\<close> of
    its \<^verbatim>\<open>tzinfo\<close> instance and the zone \<open>tz\<close> the instance belongs to.
  \<^item> A \<^verbatim>\<open>pytz\<close> zone is the pair of functions that \<^verbatim>\<open>localize\<close> and
    \<^verbatim>\<open>fromutc\<close>/\<^verbatim>\<open>normalize\<close> use to pick the offset: from a wall-clock reading and
    from a UTC instant.
  Python's integers are unbounded, so every number is an \<open>int\<close>. The limits of the
  library types (years 1 to 9999 in arithmetic, the range of \<^verbatim>\<open>timedelta\<close>) are not
  modelled, but for the validity check of \<^verbatim>\<open>datetime.replace\<close>. Naive (zone-less)
  datetimes are excluded by the type.
\<close>

text \<open>
  The exceptions. \<open>MalformedRule\<close> is the exception of the statement
  \<^verbatim>\<open>raise "UNTIL and COUNT MUST NOT occur in the same 'recur'"\<close>, which raises a
  string (from Python 2.6 on the interpreter raises \<^verbatim>\<open>TypeError\<close> in its place);
  the others are Python's own.
\<close>

datatype error = MalformedRule | ZeroDivisionError | ValueError | KeyError | IndexError

subsection \<open>The proleptic Gregorian calendar of \<^verbatim>\<open>datetime\<close>\<close>

definition usec_per_day :: int where
  "usec_per_day = 86400000000"

definition is_leap :: "int \<Rightarrow> bool" where
  "is_leap y \<longleftrightarrow> y mod 4 = 0 \<and> (y mod 100 \<noteq> 0 \<or> y mod 400 = 0)"

definition days_in_month :: "int \<Rightarrow> int \<Rightarrow> int" where
  "days_in_month y m =
     (if m = 2 then (if is_leap y then 29 else 28)
      else if m = 4 \<or> m = 6 \<or> m = 9 \<or> m = 11 then 30 else 31)"

definition days_before_year :: "int \<Rightarrow> int" where
  "days_before_year y =
     (let p = y - 1 in p * 365 + p div 4 - p div 100 + p div 400)"

definition days_before_month :: "int \<Rightarrow> int \<Rightarrow> int" where
  "days_before_month y m =
     [0, 31, 59, 90, 120, 151, 181, 212, 243, 273, 304, 334] ! nat (m - 1)
       + (if 2 < m \<and> is_leap y then 1 else 0)"

definition ymd2ord :: "int \<Rightarrow> int \<Rightarrow> int \<Rightarrow> int" where
  "ymd2ord y m d = days_before_year y + days_before_month y m + d"

text \<open>The inverse, by the 400, 100, 4 and 1 year cycles, as \<^verbatim>\<open>date.fromordinal\<close> does it.\<close>

definition ord2ymd :: "int \<Rightarrow> int \<times> int \<times> int" where
  "ord2ymd n0 =
     (let n = n0 - 1;
          n400 = n div 146097; n = n mod 146097;
          n100 = n div 36524; n = n mod 36524;
          n4 = n div 1461; n = n mod 1461;
          n1 = n div 365; n = n mod 365;
          y = n400 * 400 + 1 + n100 * 100 + n4 * 4 + n1
      in if n1 = 4 \<or> n100 = 4 then (y - 1, 12, 31)
         else
           let leap = (n1 = 3 \<and> (n4 \<noteq> 24 \<or> n100 = 3));
               m = (n + 50) div 32;
               preceding = days_before_month (if leap then 4 else 1) m
           in if n < preceding
              then (y, m - 1, n - (preceding - days_in_month (if leap then 4 else 1) (m - 1)) + 1)
              else (y, m, n - preceding + 1))"

definition valid_date :: "int \<Rightarrow> int \<Rightarrow> int \<Rightarrow> bool" where
  "valid_date y m d \<longleftrightarrow>
     1 \<le> y \<and> y \<le> 9999 \<and> 1 \<le> m \<and> m \<le> 12 \<and> 1 \<le> d \<and> d \<le> days_in_month y m"

subsection \<open>Zones and aware datetimes\<close>

record tzinfo =
  tz_localize :: "int \<Rightarrow> int"
  tz_fromutc :: "int \<Rightarrow> int"

record datetime =
  naive :: int
  utcoff :: int
  tz :: tzinfo

definition utc :: tzinfo where
  "utc = \<lparr>tz_localize = (\<lambda>_. 0), tz_fromutc = (\<lambda>_. 0)\<rparr>"

text \<open>The instant of an aware datetime: its wall clock minus its offset, on the UTC scale.\<close>

definition utc_of :: "datetime \<Rightarrow> int" where
  "utc_of dt = naive dt - utcoff dt"

text \<open>
  Comparison and subtraction of aware datetimes are those of their instants. (Python
  compares the wall clocks when both share one \<^verbatim>\<open>tzinfo\<close> instance; then the offsets are
  equal and the result is the same.)
\<close>

definition dt_lt :: "datetime \<Rightarrow> datetime \<Rightarrow> bool" where
  "dt_lt a b \<longleftrightarrow> utc_of a < utc_of b"

definition dt_gt :: "datetime \<Rightarrow> datetime \<Rightarrow> bool" where
  "dt_gt a b \<longleftrightarrow> utc_of b < utc_of a"

definition dt_sub :: "datetime \<Rightarrow> datetime \<Rightarrow> int" where
  "dt_sub a b = utc_of a - utc_of b"

text \<open>\<^verbatim>\<open>min(a, b)\<close> returns \<^verbatim>\<open>b\<close> only if \<^verbatim>\<open>b < a\<close>.\<close>

definition dt_min :: "datetime \<Rightarrow> datetime \<Rightarrow> datetime" where
  "dt_min a b = (if dt_lt b a then b else a)"

text \<open>\<^verbatim>\<open>dt + delta\<close> moves the wall clock and keeps the \<^verbatim>\<open>tzinfo\<close> instance.\<close>

definition dt_add :: "datetime \<Rightarrow> int \<Rightarrow> datetime" where
  "dt_add dt delta = dt\<lparr>naive := naive dt + delta\<rparr>"

definition timedelta :: "int \<Rightarrow> int" where
  "timedelta days = days * usec_per_day"

definition toordinal :: "datetime \<Rightarrow> int" where
  "toordinal dt = naive dt div usec_per_day + 1"

definition dt_year :: "datetime \<Rightarrow> int" where
  "dt_year dt = fst (ord2ymd (toordinal dt))"

definition dt_month :: "datetime \<Rightarrow> int" where
  "dt_month dt = fst (snd (ord2ymd (toordinal dt)))"

definition dt_day :: "datetime \<Rightarrow> int" where
  "dt_day dt = snd (snd (ord2ymd (toordinal dt)))"

text \<open>
  \<^verbatim>\<open>dt.replace(year=.., month=.., day=..)\<close> builds a new datetime from the changed
  fields, with the time of day and the \<^verbatim>\<open>tzinfo\<close> instance kept, and raises
  \<^verbatim>\<open>ValueError\<close> when the fields are not a date.
\<close>

definition replace_ymd :: "datetime \<Rightarrow> int \<Rightarrow> int \<Rightarrow> int \<Rightarrow> error + datetime" where
  "replace_ymd dt y m d =
     (if valid_date y m d
      then Inr (dt\<lparr>naive := (ymd2ord y m d - 1) * usec_per_day + naive dt mod usec_per_day\<rparr>)
      else Inl ValueError)"

definition replace_year :: "datetime \<Rightarrow> int \<Rightarrow> error + datetime" where
  "replace_year dt y = replace_ymd dt y (dt_month dt) (dt_day dt)"

definition replace_month :: "datetime \<Rightarrow> int \<Rightarrow> error + datetime" where
  "replace_month dt m = replace_ymd dt (dt_year dt) m (dt_day dt)"

definition replace_day :: "datetime \<Rightarrow> int \<Rightarrow> error + datetime" where
  "replace_day dt d = replace_ymd dt (dt_year dt) (dt_month dt) d"

text \<open>
  \<^verbatim>\<open>zone.localize(naive_dt)\<close> attaches the zone to a wall-clock reading;
  \<^verbatim>\<open>dt.astimezone(zone)\<close> and \<^verbatim>\<open>zone.normalize(dt)\<close> keep the instant and give the
  wall clock of the zone at that instant.
\<close>

definition localize :: "tzinfo \<Rightarrow> int \<Rightarrow> datetime" where
  "localize z n = \<lparr>naive = n, utcoff = tz_localize z n, tz = z\<rparr>"

definition astimezone :: "datetime \<Rightarrow> tzinfo \<Rightarrow> datetime" where
  "astimezone dt z =
     (let u = utc_of dt in \<lparr>naive = u + tz_fromutc z u, utcoff = tz_fromutc z u, tz = z\<rparr>)"

definition normalize :: "tzinfo \<Rightarrow> datetime \<Rightarrow> datetime" where
  "normalize z dt = astimezone dt z"

text \<open>
  The wall-clock reading of a date and a time of day, and the constructor
  \<^verbatim>\<open>datetime(year, month, day, hour, minute, tzinfo=utc)\<close>.
\<close>

definition wall_clock :: "int \<Rightarrow> int \<Rightarrow> int \<Rightarrow> int \<Rightarrow> int \<Rightarrow> int" where
  "wall_clock y m d hh mm = (ymd2ord y m d - 1) * usec_per_day + (hh * 60 + mm) * 60000000"

definition datetime_utc :: "int \<Rightarrow> int \<Rightarrow> int \<Rightarrow> int \<Rightarrow> int \<Rightarrow> datetime" where
  "datetime_utc y m d hh mm = \<lparr>naive = wall_clock y m d hh mm, utcoff = 0, tz = utc\<rparr>"

text \<open>A zone with one offset throughout, as \<^verbatim>\<open>pytz.FixedOffset\<close> builds it.\<close>

definition fixed_offset :: "int \<Rightarrow> tzinfo" where
  "fixed_offset off = \<lparr>tz_localize = (\<lambda>_. off), tz_fromutc = (\<lambda>_. off)\<rparr>"

text \<open>
  No zone of the time zone database moves its offset by more than a day (the largest
  moves are those of the islands that crossed the date line). For a datetime this says:
  the offsets that \<^verbatim>\<open>localize\<close> picks in its zone are at most a day ahead of its own
  offset and of one another.
\<close>

definition offsets_within_a_day :: "datetime \<Rightarrow> bool" where
  "offsets_within_a_day dt \<longleftrightarrow>
     (\<forall>a. tz_localize (tz dt) a - utcoff dt \<le> usec_per_day) \<and>
     (\<forall>a b. tz_localize (tz dt) a - tz_localize (tz dt) b \<le> usec_per_day)"

subsection \<open>The configured local zone\<close>

text \<open>
  \<^verbatim>\<open>LOCAL_TZ = timezone("Europe/Madrid")\<close>: Central European Time, one hour ahead of
  UTC, two hours in summer, from 01:00 UTC on the last Sunday of March to 01:00 UTC on
  the last Sunday of October (the rule in force since 1996, taken here for every year).
  Ordinal day 7 is a Sunday, so the last Sunday up to day \<open>n\<close> is \<open>n - n mod 7\<close>.
  \<^verbatim>\<open>localize\<close> is called with its default \<^verbatim>\<open>is_dst=False\<close>: the skipped hour of
  March and the repeated hour of October get the winter offset.
\<close>

definition last_sunday :: "int \<Rightarrow> int \<Rightarrow> int" where
  "last_sunday y m = (let n = ymd2ord y m 31 in n - n mod 7)"

definition madrid_fromutc :: "int \<Rightarrow> int" where
  "madrid_fromutc u =
     (let y = fst (ord2ymd (u div usec_per_day + 1));
          on = (last_sunday y 3 - 1) * usec_per_day + 3600000000;
          off = (last_sunday y 10 - 1) * usec_per_day + 3600000000
      in if on \<le> u \<and> u < off then 7200000000 else 3600000000)"

definition madrid_localize :: "int \<Rightarrow> int" where
  "madrid_localize n =
     (let y = fst (ord2ymd (n div usec_per_day + 1));
          on = (last_sunday y 3 - 1) * usec_per_day + 3 * 3600000000;
          off = (last_sunday y 10 - 1) * usec_per_day + 2 * 3600000000
      in if on \<le> n \<and> n < off then 7200000000 else 3600000000)"

definition LOCAL_TZ :: tzinfo where
  "LOCAL_TZ = \<lparr>tz_localize = madrid_localize, tz_fromutc = madrid_fromutc\<rparr>"

section \<open>The parsed event\<close>

text \<open>
  The \<^verbatim>\<open>icalendar\<close> component \<^verbatim>\<open>comp\<close>: its name, \<^verbatim>\<open>comp['DTSTART'].dt\<close> and
  \<^verbatim>\<open>comp['DTEND'].dt\<close> (a \<^verbatim>\<open>date\<close> or an aware \<^verbatim>\<open>datetime\<close>) and the optional
  \<^verbatim>\<open>comp['RRULE']\<close>, a dictionary whose values are lists read at index 0: a key that
  is present is \<open>Some\<close> of that first element.
\<close>

datatype dt_value = PyDate int int int | PyDateTime datetime

record rrule =
  FREQ :: string
  COUNT :: "int option"
  INTERVAL :: "int option"
  UNTIL :: "dt_value option"
  BYMONTH :: "int option"
  BYMONTHDAY :: "int option"

record vevent =
  comp_name :: string
  DTSTART :: dt_value
  DTEND :: dt_value
  RRULE :: "rrule option"

text \<open>An element of the iterators: \<^verbatim>\<open>(start, end, rec_event)\<close>, the flag 0 or 1.\<close>

type_synonym occurrence = "datetime \<times> datetime \<times> int"

definition occ_start :: "occurrence \<Rightarrow> datetime" where
  "occ_start occ = fst occ"

definition occ_end :: "occurrence \<Rightarrow> datetime" where
  "occ_end occ = fst (snd occ)"

definition occ_rec :: "occurrence \<Rightarrow> int" where
  "occ_rec occ = snd (snd occ)"

section \<open>The helper functions\<close>

fun get_datetime :: "dt_value \<Rightarrow> datetime" where
  "get_datetime (PyDateTime dt) = dt"
| "get_datetime (PyDate y m d) = astimezone (datetime_utc y m d 0 0) LOCAL_TZ"

definition add_delta_dst :: "datetime \<Rightarrow> int \<Rightarrow> datetime" where
  "add_delta_dst dt delta = localize (tz dt) (naive dt + delta)"

text \<open>
  The source is Python 2: \<^verbatim>\<open>/\<close> on two integers is floor division and raises
  \<^verbatim>\<open>ZeroDivisionError\<close> for a zero divisor; \<^verbatim>\<open>floor\<close> and \<^verbatim>\<open>int\<close> then leave the
  quotient as it is.
\<close>

definition advance_just_before :: "datetime \<Rightarrow> datetime \<Rightarrow> int \<Rightarrow> error + datetime \<times> int" where
  "advance_just_before start_dt timeframe_start delta_days =
     (if delta_days = 0 then Inl ZeroDivisionError
      else
        let delta_ord = (toordinal timeframe_start - toordinal start_dt - 1) div delta_days
        in Inr (add_delta_dst start_dt (timedelta (delta_days * delta_ord)), delta_ord))"

section \<open>Iterators\<close>

text \<open>
  An iterator is its object state and a \<^verbatim>\<open>next\<close> method. A call of \<^verbatim>\<open>next\<close>
  raises an exception (\<open>Inl\<close>), or returns the new state together with the element it
  produced, \<open>None\<close> standing for \<^verbatim>\<open>StopIteration\<close>.

  \<open>consume\<close> is the loop \<^verbatim>\<open>for comp_start, comp_end, rec_event in event_iter\<close> of
  \<^verbatim>\<open>process_calendar\<close>: it calls \<^verbatim>\<open>next\<close> until \<^verbatim>\<open>StopIteration\<close> or an exception
  ends the loop, and returns the elements handed to the loop body, with the exception
  if there was one. The loop may run forever (a zero step): the fuel is a bound on the
  number of calls, and \<open>None\<close> says that the loop has not ended within it.
  \<open>emitted n\<close> lists the elements that the first \<open>n\<close> calls hand to the loop body.
\<close>

primrec emitted ::
  "('s \<Rightarrow> error + occurrence option \<times> 's) \<Rightarrow> nat \<Rightarrow> 's \<Rightarrow> occurrence list" where
  "emitted nxt 0 s = []"
| "emitted nxt (Suc n) s =
     (case nxt s of
        Inl e \<Rightarrow> []
      | Inr r \<Rightarrow>
          (case fst r of
             None \<Rightarrow> []
           | Some occ \<Rightarrow> occ # emitted nxt n (snd r)))"

primrec consume ::
  "('s \<Rightarrow> error + occurrence option \<times> 's) \<Rightarrow> nat \<Rightarrow> 's
     \<Rightarrow> (occurrence list \<times> error option) option" where
  "consume nxt 0 s = None"
| "consume nxt (Suc n) s =
     (case nxt s of
        Inl e \<Rightarrow> Some ([], Some e)
      | Inr r \<Rightarrow>
          (case fst r of
             None \<Rightarrow> Some ([], None)
           | Some occ \<Rightarrow>
               (case consume nxt n (snd r) of
                  None \<Rightarrow> None
                | Some rest \<Rightarrow> Some (occ # fst rest, snd rest))))"

subsection \<open>\<^verbatim>\<open>EventSingleIter\<close>\<close>

text \<open>The attribute \<^verbatim>\<open>result\<close> is the empty tuple (\<open>None\<close>) or the triple to return.\<close>

record EventSingleIter =
  sgl_ev_start :: datetime
  sgl_ev_end :: datetime
  sgl_duration :: int
  sgl_result :: "occurrence option"

definition EventSingleIter_init :: "vevent \<Rightarrow> datetime \<Rightarrow> datetime \<Rightarrow> EventSingleIter" where
  "EventSingleIter_init cmp timeframe_start timeframe_end =
     (let ev_start = get_datetime (DTSTART cmp);
          ev_end = get_datetime (DTEND cmp)
      in \<lparr>sgl_ev_start = ev_start,
          sgl_ev_end = ev_end,
          sgl_duration = dt_sub ev_end ev_start,
          sgl_result =
            (if dt_lt ev_start timeframe_end \<and> dt_gt ev_end timeframe_start
             then Some (ev_start, ev_end, 0) else None)\<rparr>)"

definition EventSingleIter_next ::
  "EventSingleIter \<Rightarrow> error + occurrence option \<times> EventSingleIter" where
  "EventSingleIter_next self =
     (case sgl_result self of
        Some aux \<Rightarrow> Inr (Some aux, self\<lparr>sgl_result := None\<rparr>)
      | None \<Rightarrow> Inr (None, self))"

subsection \<open>\<^verbatim>\<open>EventRecurDaysIter\<close>\<close>

text \<open>
  The attribute \<^verbatim>\<open>count\<close> exists only if the rule has a COUNT; it is read only if
  \<^verbatim>\<open>is_count\<close> is set, and is 0 here otherwise. The attribute \<^verbatim>\<open>current\<close> is set on
  every path of the constructor that returns.
\<close>

record EventRecurDaysIter =
  days_ev_start :: datetime
  days_ev_end :: datetime
  days_duration :: int
  days_is_count :: bool
  days_count :: int
  days_delta :: int
  days_until_utc :: datetime
  days_current :: datetime

text \<open>
  The loop \<^verbatim>\<open>while self.current < timeframe_start: self.current = add_delta_dst(...)\<close>.
  It need not end (a step that is not positive), so its result is an \<open>option\<close>.
\<close>

partial_function (option) advance_while :: "datetime \<Rightarrow> int \<Rightarrow> datetime \<Rightarrow> datetime option" where
  "advance_while current delta timeframe_start =
     (if dt_lt current timeframe_start
      then advance_while (add_delta_dst current delta) delta timeframe_start
      else Some current)"

definition delta_days_of :: "int \<Rightarrow> rrule \<Rightarrow> int" where
  "delta_days_of days r = (case INTERVAL r of Some i \<Rightarrow> days * i | None \<Rightarrow> days)"

text \<open>
  The constructor: \<open>None\<close> if it does not return, \<open>Some (Inl e)\<close> if it raises,
  \<open>Some (Inr self)\<close> if it returns. \<^verbatim>\<open>comp['RRULE']\<close> raises \<^verbatim>\<open>KeyError\<close> on an
  event without a rule.
\<close>

definition EventRecurDaysIter_init ::
  "int \<Rightarrow> vevent \<Rightarrow> datetime \<Rightarrow> datetime \<Rightarrow> (error + EventRecurDaysIter) option" where
  "EventRecurDaysIter_init days cmp timeframe_start timeframe_end =
     (case RRULE cmp of
        None \<Rightarrow> Some (Inl KeyError)
      | Some r \<Rightarrow>
         let ev_start = get_datetime (DTSTART cmp);
             ev_end = get_datetime (DTEND cmp);
             is_count = (COUNT r \<noteq> None);
             count = (case COUNT r of Some c \<Rightarrow> c | None \<Rightarrow> 0);
             delta_days = delta_days_of days r;
             self = \<lparr>days_ev_start = ev_start,
                     days_ev_end = ev_end,
                     days_duration = dt_sub ev_end ev_start,
                     days_is_count = is_count,
                     days_count = count,
                     days_delta = timedelta delta_days,
                     days_until_utc = timeframe_end,
                     days_current = ev_start\<rparr>
         in if UNTIL r \<noteq> None \<and> is_count then Some (Inl MalformedRule)
            else
              let until_utc =
                    (case UNTIL r of
                       Some u \<Rightarrow> astimezone (get_datetime u) utc
                     | None \<Rightarrow> timeframe_end)
              in if dt_lt until_utc timeframe_start
                 then Some (Inr (self\<lparr>days_until_utc := until_utc,
                                      days_current := dt_add until_utc (timedelta delta_days)\<rparr>))
                 else
                   let self = self\<lparr>days_until_utc := dt_min until_utc timeframe_end\<rparr>
                   in if dt_lt ev_start timeframe_start
                      then
                        (case advance_just_before ev_start timeframe_start delta_days of
                           Inl e \<Rightarrow> Some (Inl e)
                         | Inr res \<Rightarrow>
                             let current = fst res;
                                 counts = snd res;
                                 self = self\<lparr>days_current := current\<rparr>;
                                 self = (if is_count
                                         then self\<lparr>days_count := days_count self - counts\<rparr>
                                         else self)
                             in if is_count \<and> days_count self < 1 then Some (Inr self)
                                else
                                  (case advance_while current (timedelta delta_days) timeframe_start of
                                     None \<Rightarrow> None
                                   | Some c \<Rightarrow> Some (Inr (self\<lparr>days_current := c\<rparr>))))
                      else Some (Inr (self\<lparr>days_current := ev_start\<rparr>)))"

definition next_until ::
  "EventRecurDaysIter \<Rightarrow> error + occurrence option \<times> EventRecurDaysIter" where
  "next_until self =
     (if dt_gt (days_current self) (days_until_utc self) then Inr (None, self)
      else
        let event_aux = days_current self;
            self = self\<lparr>days_current := add_delta_dst (days_current self) (days_delta self)\<rparr>
        in Inr (Some (event_aux,
                      normalize (tz event_aux) (dt_add event_aux (days_duration self)),
                      1),
                self))"

definition next_count ::
  "EventRecurDaysIter \<Rightarrow> error + occurrence option \<times> EventRecurDaysIter" where
  "next_count self =
     (if days_count self < 1 then Inr (None, self)
      else
        let self = self\<lparr>days_count := days_count self - 1\<rparr>;
            event_aux = days_current self;
            self = self\<lparr>days_current := add_delta_dst (days_current self) (days_delta self)\<rparr>
        in Inr (Some (event_aux,
                      normalize (tz event_aux) (dt_add event_aux (days_duration self)),
                      1),
                self))"

definition EventRecurDaysIter_next ::
  "EventRecurDaysIter \<Rightarrow> error + occurrence option \<times> EventRecurDaysIter" where
  "EventRecurDaysIter_next self =
     (if days_is_count self then next_count self else next_until self)"

subsection \<open>\<^verbatim>\<open>EventRecurYearlyIter\<close>\<close>

text \<open>
  The constructor sets \<^verbatim>\<open>bymonth\<close>, \<^verbatim>\<open>bymonthday\<close>, \<^verbatim>\<open>duration\<close> and \<^verbatim>\<open>years\<close>
  only on the path that does not return early; the early return leaves \<^verbatim>\<open>n = 0\<close>,
  with which \<^verbatim>\<open>next\<close> reads none of them. They are 0 and the empty list here until
  they are set.

  The source is Python 2: \<^verbatim>\<open>range(a, b + 1)\<close> is the list of the integers from
  \<^verbatim>\<open>a\<close> to \<^verbatim>\<open>b\<close>, and \<^verbatim>\<open>del years[c:]\<close> keeps the first \<^verbatim>\<open>c\<close> elements, a
  negative \<^verbatim>\<open>c\<close> counting from the end of the list.
\<close>

record EventRecurYearlyIter =
  yr_ev_start :: datetime
  yr_ev_end :: datetime
  yr_start :: datetime
  yr_end :: datetime
  yr_is_until :: bool
  yr_bymonth :: int
  yr_bymonthday :: int
  yr_duration :: int
  yr_years :: "int list"
  yr_i :: nat
  yr_n :: nat

definition del_from :: "'a list \<Rightarrow> int \<Rightarrow> 'a list" where
  "del_from xs c = (if 0 \<le> c then take (nat c) xs else take (nat (int (length xs) + c)) xs)"

definition EventRecurYearlyIter_init ::
  "vevent \<Rightarrow> datetime \<Rightarrow> datetime \<Rightarrow> error + EventRecurYearlyIter" where
  "EventRecurYearlyIter_init cmp timeframe_start timeframe_end =
     (case RRULE cmp of
        None \<Rightarrow> Inl KeyError
      | Some r \<Rightarrow>
         let ev_start = get_datetime (DTSTART cmp);
             ev_end = get_datetime (DTEND cmp);
             is_until = (UNTIL r \<noteq> None);
             end = (case UNTIL r of
                      Some u \<Rightarrow> dt_min timeframe_end (astimezone (get_datetime u) utc)
                    | None \<Rightarrow> timeframe_end);
             self = \<lparr>yr_ev_start = ev_start,
                     yr_ev_end = ev_end,
                     yr_start = timeframe_start,
                     yr_end = end,
                     yr_is_until = is_until,
                     yr_bymonth = 0,
                     yr_bymonthday = 0,
                     yr_duration = 0,
                     yr_years = [],
                     yr_i = 0,
                     yr_n = 0\<rparr>
         in if dt_lt end timeframe_start then Inr self
            else
              let self = self\<lparr>
                    yr_bymonth := (case BYMONTH r of Some m \<Rightarrow> m | None \<Rightarrow> dt_month ev_start),
                    yr_bymonthday := (case BYMONTHDAY r of Some d \<Rightarrow> d | None \<Rightarrow> dt_day ev_start),
                    yr_duration := dt_sub ev_end ev_start,
                    yr_years := [dt_year timeframe_start .. dt_year end]\<rparr>
              in (case COUNT r of
                    Some c \<Rightarrow>
                      if is_until then Inl MalformedRule
                      else
                        let years = del_from [dt_year ev_start .. dt_year end] c
                        in Inr (self\<lparr>yr_years := years, yr_i := 0, yr_n := length years\<rparr>)
                  | None \<Rightarrow> Inr (self\<lparr>yr_i := 0, yr_n := length (yr_years self)\<rparr>)))"

text \<open>
  \<^verbatim>\<open>next\<close> calls itself after a candidate that lies before the window; the index
  \<^verbatim>\<open>i\<close> has grown by then. \<^verbatim>\<open>i\<close> is also advanced when \<^verbatim>\<open>StopIteration\<close> is raised
  for a candidate past the end, and is not when a \<^verbatim>\<open>replace\<close> raises.
\<close>

function EventRecurYearlyIter_next ::
  "EventRecurYearlyIter \<Rightarrow> error + occurrence option \<times> EventRecurYearlyIter" where
  "EventRecurYearlyIter_next self =
     (if yr_n self \<le> yr_i self then Inr (None, self)
      else if length (yr_years self) \<le> yr_i self then Inl IndexError
      else
        (case replace_year (yr_ev_start self) (yr_years self ! yr_i self) of
           Inl e \<Rightarrow> Inl e
         | Inr aux1 \<Rightarrow>
            (case replace_month aux1 (yr_bymonth self) of
               Inl e \<Rightarrow> Inl e
             | Inr aux2 \<Rightarrow>
                (case replace_day aux2 (yr_bymonthday self) of
                   Inl e \<Rightarrow> Inl e
                 | Inr event_aux \<Rightarrow>
                     if dt_gt event_aux (yr_end self)
                     then Inr (None, self\<lparr>yr_i := yr_i self + 1\<rparr>)
                     else if dt_lt event_aux (yr_start self)
                     then EventRecurYearlyIter_next (self\<lparr>yr_i := yr_i self + 1\<rparr>)
                     else Inr (Some (event_aux,
                                     normalize (tz event_aux) (dt_add event_aux (yr_duration self)),
                                     1),
                               self\<lparr>yr_i := yr_i self + 1\<rparr>)))))"
  by pat_completeness auto
termination
  by (relation "measure (\<lambda>self. yr_n self - yr_i self)") auto

declare EventRecurYearlyIter_next.simps [simp del]

section \<open>The dispatcher\<close>

text \<open>
  What \<^verbatim>\<open>generate_event_iterator\<close> returns: the empty list or one of the iterators.
  For an event with a rule it builds a dictionary literal first, whose four values are
  evaluated in the order in which they are written, and then looks the frequency up in
  it, which raises \<^verbatim>\<open>KeyError\<close> for any other frequency.
\<close>

datatype event_iter =
  EmptyList
| Single EventSingleIter
| Days EventRecurDaysIter
| Yearly EventRecurYearlyIter

definition generate_event_iterator ::
  "vevent \<Rightarrow> datetime \<Rightarrow> datetime \<Rightarrow> (error + event_iter) option" where
  "generate_event_iterator cmp timeframe_start timeframe_end =
     (if comp_name cmp \<noteq> ''VEVENT'' then Some (Inr EmptyList)
      else
        (case RRULE cmp of
           Some r \<Rightarrow>
             (case EventRecurDaysIter_init 7 cmp timeframe_start timeframe_end of
                None \<Rightarrow> None
              | Some (Inl e) \<Rightarrow> Some (Inl e)
              | Some (Inr weekly) \<Rightarrow>
                 (case EventRecurDaysIter_init 1 cmp timeframe_start timeframe_end of
                    None \<Rightarrow> None
                  | Some (Inl e) \<Rightarrow> Some (Inl e)
                  | Some (Inr daily) \<Rightarrow>
                     (case EventRecurYearlyIter_init cmp timeframe_start timeframe_end of
                        Inl e \<Rightarrow> Some (Inl e)
                      | Inr yearly \<Rightarrow>
                         (case map_of [(''WEEKLY'', Days weekly),
                                       (''DAILY'', Days daily),
                                       (''MONTHLY'', EmptyList),
                                       (''YEARLY'', Yearly yearly)] (FREQ r) of
                            None \<Rightarrow> Some (Inl KeyError)
                          | Some it \<Rightarrow> Some (Inr it)))))
         | None \<Rightarrow>
             Some (Inr (Single (EventSingleIter_init cmp timeframe_start timeframe_end)))))"

text \<open>\<^verbatim>\<open>next\<close> of whatever the dispatcher returned; the empty list has no element.\<close>

definition event_iter_next :: "event_iter \<Rightarrow> error + occurrence option \<times> event_iter" where
  "event_iter_next it =
     (case it of
        EmptyList \<Rightarrow> Inr (None, EmptyList)
      | Single s \<Rightarrow> map_sum id (map_prod id Single) (EventSingleIter_next s)
      | Days d \<Rightarrow> map_sum id (map_prod id Days) (EventRecurDaysIter_next d)
      | Yearly y \<Rightarrow> map_sum id (map_prod id Yearly) (EventRecurYearlyIter_next y))"

text \<open>
  The expansion of one event in \<^verbatim>\<open>process_calendar\<close>: the dispatcher's result is
  consumed by the \<^verbatim>\<open>for\<close> loop; an exception of the dispatcher ends the expansion
  before any element.
\<close>

definition expand ::
  "vevent \<Rightarrow> datetime \<Rightarrow> datetime \<Rightarrow> nat \<Rightarrow> (occurrence list \<times> error option) option" where
  "expand cmp timeframe_start timeframe_end fuel =
     (case generate_event_iterator cmp timeframe_start timeframe_end of
        None \<Rightarrow> None
      | Some (Inl e) \<Rightarrow> Some ([], Some e)
      | Some (Inr it) \<Rightarrow> consume event_iter_next fuel it)"

text \<open>The calendar date \<^verbatim>\<open>(dt.year, dt.month, dt.day)\<close> of a datetime, in its own zone.\<close>

definition dt_date :: "datetime \<Rightarrow> int \<times> int \<times> int" where
  "dt_date dt = ord2ymd (toordinal dt)"

text \<open>
  The elements that the first \<open>n\<close> calls of \<^verbatim>\<open>next\<close> hand out when the generator of
  one family is built for an event and a window; none if the constructor fails.
\<close>

definition single_emitted :: "vevent \<Rightarrow> datetime \<Rightarrow> datetime \<Rightarrow> nat \<Rightarrow> occurrence list" where
  "single_emitted cmp timeframe_start timeframe_end n =
     emitted EventSingleIter_next n (EventSingleIter_init cmp timeframe_start timeframe_end)"

definition days_emitted ::
  "int \<Rightarrow> vevent \<Rightarrow> datetime \<Rightarrow> datetime \<Rightarrow> nat \<Rightarrow> occurrence list" where
  "days_emitted days cmp timeframe_start timeframe_end n =
     (case EventRecurDaysIter_init days cmp timeframe_start timeframe_end of
        Some (Inr self) \<Rightarrow> emitted EventRecurDaysIter_next n self
      | _ \<Rightarrow> [])"

definition yearly_emitted :: "vevent \<Rightarrow> datetime \<Rightarrow> datetime \<Rightarrow> nat \<Rightarrow> occurrence list" where
  "yearly_emitted cmp timeframe_start timeframe_end n =
     (case EventRecurYearlyIter_init cmp timeframe_start timeframe_end of
        Inr self \<Rightarrow> emitted EventRecurYearlyIter_next n self
      | Inl e \<Rightarrow> [])"

text \<open>
  The loop over the generator of one family, for an event and a window: the elements
  seen and the exception that ended the loop, if one did; an exception of the
  constructor ends it before any element; \<open>None\<close> if the constructor does not return
  or the loop is not over within the fuel.
\<close>

definition days_consume ::
  "int \<Rightarrow> vevent \<Rightarrow> datetime \<Rightarrow> datetime \<Rightarrow> nat
     \<Rightarrow> (occurrence list \<times> error option) option" where
  "days_consume days cmp timeframe_start timeframe_end fuel =
     (case EventRecurDaysIter_init days cmp timeframe_start timeframe_end of
        None \<Rightarrow> None
      | Some (Inl e) \<Rightarrow> Some ([], Some e)
      | Some (Inr self) \<Rightarrow> consume EventRecurDaysIter_next fuel self)"

definition yearly_consume ::
  "vevent \<Rightarrow> datetime \<Rightarrow> datetime \<Rightarrow> nat \<Rightarrow> (occurrence list \<times> error option) option" where
  "yearly_consume cmp timeframe_start timeframe_end fuel =
     (case EventRecurYearlyIter_init cmp timeframe_start timeframe_end of
        Inl e \<Rightarrow> Some ([], Some e)
      | Inr self \<Rightarrow> consume EventRecurYearlyIter_next fuel self)"

text \<open>
  The number of steps of \<open>delta_days\<close> days from the start of the event to an element,
  on the wall clock.
\<close>

definition step_index :: "vevent \<Rightarrow> int \<Rightarrow> occurrence \<Rightarrow> int" where
  "step_index cmp delta_days occ =
     (naive (occ_start occ) - naive (get_datetime (DTSTART cmp))) div timedelta delta_days"

text \<open>The duration of the event as given: \<^verbatim>\<open>DTEND - DTSTART\<close>.\<close>

definition template_duration :: "vevent \<Rightarrow> int" where
  "template_duration cmp = dt_sub (get_datetime (DTEND cmp)) (get_datetime (DTSTART cmp))"

section \<open>Example events\<close>

definition no_rule :: "string \<Rightarrow> rrule" where
  "no_rule f =
     \<lparr>FREQ = f, COUNT = None, INTERVAL = None, UNTIL = None, BYMONTH = None, BYMONTHDAY = None\<rparr>"

text \<open>A meeting on 1 March 2023, 09:00 to 10:00 UTC, and the year 2023 as the window.\<close>

definition meeting :: vevent where
  "meeting =
     \<lparr>comp_name = ''VEVENT'',
      DTSTART = PyDateTime (datetime_utc 2023 3 1 9 0),
      DTEND = PyDateTime (datetime_utc 2023 3 1 10 0),
      RRULE = None\<rparr>"

definition year_2023_start :: datetime where
  "year_2023_start = datetime_utc 2023 1 1 0 0"

definition year_2023_end :: datetime where
  "year_2023_end = datetime_utc 2024 1 1 0 0"

text \<open>An event that ends at the very instant at which the window starts.\<close>

definition new_year_eve :: vevent where
  "new_year_eve =
     \<lparr>comp_name = ''VEVENT'',
      DTSTART = PyDateTime (datetime_utc 2022 12 31 22 0),
      DTEND = PyDateTime (datetime_utc 2023 1 1 0 0),
      RRULE = None\<rparr>"

text \<open>
  An event late in the evening of 1 June 2023 in a zone five hours behind UTC, and the
  midnight of 3 June, UTC.
\<close>

definition evening_west :: datetime where
  "evening_west = localize (fixed_offset (- 18000000000)) (wall_clock 2023 6 1 23 0)"

definition june_3 :: datetime where
  "june_3 = datetime_utc 2023 6 3 0 0"

text \<open>
  02:30 in Madrid in the night of 29 October 2023, when that hour comes twice: the
  first time, still in summer time, two hours ahead of UTC. And the midnight of
  30 October, UTC.
\<close>

definition autumn_night :: datetime where
  "autumn_night = \<lparr>naive = wall_clock 2023 10 29 2 30, utcoff = 7200000000, tz = LOCAL_TZ\<rparr>"

definition oct_30 :: datetime where
  "oct_30 = datetime_utc 2023 10 30 0 0"

text \<open>
  A meeting each Wednesday from 2 November 2022, 09:00 to 10:00 UTC, until the end of
  January 2023.
\<close>

definition weekly_until :: vevent where
  "weekly_until =
     \<lparr>comp_name = ''VEVENT'',
      DTSTART = PyDateTime (datetime_utc 2022 11 2 9 0),
      DTEND = PyDateTime (datetime_utc 2022 11 2 10 0),
      RRULE = Some ((no_rule ''WEEKLY'')\<lparr>UNTIL := Some (PyDateTime (datetime_utc 2023 1 31 0 0))\<rparr>)\<rparr>"

text \<open>
  The meeting repeated every week, every year and every month, and every month with both
  a COUNT and an UNTIL.
\<close>

definition weekly_meeting :: vevent where
  "weekly_meeting = meeting\<lparr>RRULE := Some (no_rule ''WEEKLY'')\<rparr>"

definition yearly_meeting :: vevent where
  "yearly_meeting = meeting\<lparr>RRULE := Some (no_rule ''YEARLY'')\<rparr>"

definition monthly_meeting :: vevent where
  "monthly_meeting = meeting\<lparr>RRULE := Some (no_rule ''MONTHLY'')\<rparr>"

definition monthly_count_until :: vevent where
  "monthly_count_until =
     meeting\<lparr>RRULE := Some ((no_rule ''MONTHLY'')
        \<lparr>COUNT := Some 3, UNTIL := Some (PyDateTime (datetime_utc 2023 9 1 0 0))\<rparr>)\<rparr>"

text \<open>
  Scenario A: a weekly event from Tuesday 10 January 2023, 10:00 to 11:00, with
  interval 1 and neither COUNT nor UNTIL, in the window from 1 to 15 February 2023.
  The start of the event is a datetime in any zone.
\<close>

definition scenario_a :: "datetime \<Rightarrow> vevent" where
  "scenario_a start_dt =
     \<lparr>comp_name = ''VEVENT'',
      DTSTART = PyDateTime start_dt,
      DTEND = PyDateTime (dt_add start_dt 3600000000),
      RRULE = Some ((no_rule ''WEEKLY'')\<lparr>INTERVAL := Some 1\<rparr>)\<rparr>"

definition feb_1 :: datetime where
  "feb_1 = datetime_utc 2023 2 1 0 0"

definition feb_15 :: datetime where
  "feb_15 = datetime_utc 2023 2 15 0 0"

text \<open>
  Scenario B: a daily event from the date 1 June 2023 (to the date 2 June) with
  interval 1 and COUNT 5, in the window from 3 June 2023 to 1 January 2030.
\<close>

definition scenario_b :: vevent where
  "scenario_b =
     \<lparr>comp_name = ''VEVENT'',
      DTSTART = PyDate 2023 6 1,
      DTEND = PyDate 2023 6 2,
      RRULE = Some ((no_rule ''DAILY'')\<lparr>COUNT := Some 5, INTERVAL := Some 1\<rparr>)\<rparr>"

definition year_2030 :: datetime where
  "year_2030 = datetime_utc 2030 1 1 0 0"

text \<open>The same rule on an event of one hour from midnight UTC, and a window of two days.\<close>

definition count_five_daily :: vevent where
  "count_five_daily =
     \<lparr>comp_name = ''VEVENT'',
      DTSTART = PyDateTime (datetime_utc 2023 6 1 0 0),
      DTEND = PyDateTime (datetime_utc 2023 6 1 1 0),
      RRULE = Some ((no_rule ''DAILY'')\<lparr>COUNT := Some 5, INTERVAL := Some 1\<rparr>)\<rparr>"

definition june_5 :: datetime where
  "june_5 = datetime_utc 2023 6 5 0 0"

text \<open>
  A yearly event from 10 March 2019 whose rule has both a COUNT and an UNTIL, the UNTIL
  at the start of 2020 or in September 2023.
\<close>

definition yearly_count_until :: "datetime \<Rightarrow> vevent" where
  "yearly_count_until until =
     \<lparr>comp_name = ''VEVENT'',
      DTSTART = PyDateTime (datetime_utc 2019 3 10 10 0),
      DTEND = PyDateTime (datetime_utc 2019 3 10 11 0),
      RRULE = Some ((no_rule ''YEARLY'')\<lparr>COUNT := Some 3, UNTIL := Some (PyDateTime until)\<rparr>)\<rparr>"

text \<open>
  Yearly events on 15 April and on 1 March, given by BYMONTH and BYMONTHDAY, whose first
  instance was entered on 31 January 2023 and on the leap day of 2020.
\<close>

definition yearly_by_month_day :: "datetime \<Rightarrow> int \<Rightarrow> int \<Rightarrow> vevent" where
  "yearly_by_month_day start_dt m d =
     \<lparr>comp_name = ''VEVENT'',
      DTSTART = PyDateTime start_dt,
      DTEND = PyDateTime (dt_add start_dt 3600000000),
      RRULE = Some ((no_rule ''YEARLY'')\<lparr>BYMONTH := Some m, BYMONTHDAY := Some d\<rparr>)\<rparr>"

text \<open>
  A weekly event from 1 June 2021, 09:00 to 10:00 UTC, with interval 0 and an UNTIL at
  the start of 2022, a year before the window of the year 2023.
\<close>

definition zero_interval_until :: vevent where
  "zero_interval_until =
     \<lparr>comp_name = ''VEVENT'',
      DTSTART = PyDateTime (datetime_utc 2021 6 1 9 0),
      DTEND = PyDateTime (datetime_utc 2021 6 1 10 0),
      RRULE = Some ((no_rule ''WEEKLY'')
        \<lparr>INTERVAL := Some 0, UNTIL := Some (PyDateTime (datetime_utc 2022 1 1 0 0))\<rparr>)\<rparr>"

text \<open>
  A weekly event from 1 January 2023, 09:00 to 10:00 UTC, with interval -1, and the
  window from 8 January 2023 to the end of the year.
\<close>

definition weekly_backwards :: vevent where
  "weekly_backwards =
     \<lparr>comp_name = ''VEVENT'',
      DTSTART = PyDateTime (datetime_utc 2023 1 1 9 0),
      DTEND = PyDateTime (datetime_utc 2023 1 1 10 0),
      RRULE = Some ((no_rule ''WEEKLY'')\<lparr>INTERVAL := Some (- 1)\<rparr>)\<rparr>"

definition jan_8 :: datetime where
  "jan_8 = datetime_utc 2023 1 8 0 0"

section \<open>Evaluation and basic facts\<close>

text \<open>
  Closed terms are evaluated by rewriting with the definitions. The bound value of a
  \<open>let\<close> is evaluated before it is put into the body (\<open>let_weak_cong\<close>).
\<close>

lemma emitted_numeral:
  "emitted nxt (numeral k) s =
     (case nxt s of
        Inl e \<Rightarrow> []
      | Inr r \<Rightarrow>
          (case fst r of
             None \<Rightarrow> []
           | Some occ \<Rightarrow> occ # emitted nxt (pred_numeral k) (snd r)))"
  by (simp add: numeral_eq_Suc)

lemma consume_numeral:
  "consume nxt (numeral k) s =
     (case nxt s of
        Inl e \<Rightarrow> Some ([], Some e)
      | Inr r \<Rightarrow>
          (case fst r of
             None \<Rightarrow> Some ([], None)
           | Some occ \<Rightarrow>
               (case consume nxt (pred_numeral k) (snd r) of
                  None \<Rightarrow> None
                | Some rest \<Rightarrow> Some (occ # fst rest, snd rest))))"
  by (simp add: numeral_eq_Suc)

lemmas calendar_defs =
  usec_per_day_def is_leap_def days_in_month_def days_before_year_def days_before_month_def
  ymd2ord_def ord2ymd_def valid_date_def last_sunday_def

lemmas datetime_defs =
  utc_of_def dt_lt_def dt_gt_def dt_sub_def dt_min_def dt_add_def timedelta_def toordinal_def
  dt_year_def dt_month_def dt_day_def replace_ymd_def replace_year_def replace_month_def
  replace_day_def localize_def astimezone_def normalize_def wall_clock_def datetime_utc_def
  fixed_offset_def
  madrid_fromutc_def madrid_localize_def LOCAL_TZ_def utc_def dt_date_def add_delta_dst_def
  occ_start_def occ_end_def occ_rec_def

lemmas iter_defs =
  advance_just_before_def delta_days_of_def EventSingleIter_init_def EventSingleIter_next_def
  EventRecurDaysIter_init_def next_until_def next_count_def EventRecurDaysIter_next_def
  del_from_def EventRecurYearlyIter_init_def generate_event_iterator_def event_iter_next_def
  expand_def single_emitted_def days_emitted_def yearly_emitted_def template_duration_def
  days_consume_def yearly_consume_def step_index_def
  advance_while.simps EventRecurYearlyIter_next.simps emitted_numeral consume_numeral

lemmas example_defs =
  no_rule_def meeting_def year_2023_start_def year_2023_end_def new_year_eve_def
  weekly_meeting_def yearly_meeting_def monthly_count_until_def evening_west_def june_3_def
  weekly_until_def scenario_a_def feb_1_def feb_15_def scenario_b_def year_2030_def
  count_five_daily_def june_5_def yearly_count_until_def yearly_by_month_day_def
  zero_interval_until_def weekly_backwards_def jan_8_def monthly_meeting_def
  autumn_night_def oct_30_def

lemma usec_per_day_pos: "0 < usec_per_day"
  by (simp add: usec_per_day_def)

lemma utc_of_astimezone [simp]: "utc_of (astimezone dt z) = utc_of dt"
  by (simp add: astimezone_def utc_of_def Let_def)

lemma utc_of_normalize [simp]: "utc_of (normalize z dt) = utc_of dt"
  by (simp add: normalize_def)

lemma utc_of_dt_add [simp]: "utc_of (dt_add dt d) = utc_of dt + d"
  by (simp add: dt_add_def utc_of_def)

lemma utc_of_dt_min [simp]: "utc_of (dt_min a b) = min (utc_of a) (utc_of b)"
  by (simp add: dt_min_def dt_lt_def)

lemma add_delta_dst_sel [simp]:
  "naive (add_delta_dst dt d) = naive dt + d"
  "tz (add_delta_dst dt d) = tz dt"
  "utcoff (add_delta_dst dt d) = tz_localize (tz dt) (naive dt + d)"
  by (simp_all add: add_delta_dst_def localize_def)

subsection \<open>One call of \<^verbatim>\<open>next\<close>\<close>

text \<open>
  A call of \<^verbatim>\<open>EventRecurDaysIter.next\<close> stops and leaves the object as it is, or
  returns the current time with its end and moves the current time one step on.
\<close>

lemma days_next_cases:
  assumes "EventRecurDaysIter_next self = r"
  obtains (stop) "r = Inr (None, self)"
      "days_is_count self \<Longrightarrow> days_count self < 1"
      "\<not> days_is_count self \<Longrightarrow> dt_gt (days_current self) (days_until_utc self)"
  | (emit) self' where
      "r = Inr (Some (days_current self,
             normalize (tz (days_current self)) (dt_add (days_current self) (days_duration self)),
             1), self')"
      "days_current self' = add_delta_dst (days_current self) (days_delta self)"
      "days_duration self' = days_duration self"
      "days_delta self' = days_delta self"
      "days_until_utc self' = days_until_utc self"
      "days_is_count self' = days_is_count self"
      "days_is_count self \<Longrightarrow> 1 \<le> days_count self \<and> days_count self' = days_count self - 1"
      "\<not> days_is_count self \<Longrightarrow> \<not> dt_gt (days_current self) (days_until_utc self)"
  using assms
  by (auto simp: EventRecurDaysIter_next_def next_count_def next_until_def Let_def
           split: if_splits)

lemma yearly_next_emit:
  "EventRecurYearlyIter_next self = Inr (Some occ, self') \<Longrightarrow>
     dt_sub (occ_end occ) (occ_start occ) = yr_duration self \<and> occ_rec occ = 1
     \<and> yr_duration self' = yr_duration self"
proof (induction self rule: EventRecurYearlyIter_next.induct)
  case (1 self)
  from "1.prems" "1.IH" show ?case
    by (subst (asm) EventRecurYearlyIter_next.simps)
       (auto split: if_splits sum.splits
             simp: occ_end_def occ_start_def occ_rec_def dt_sub_def)
qed

subsection \<open>Durations and flags of the elements\<close>

lemma single_emitted_elements:
  "occ \<in> set (single_emitted cmp ts te n) \<Longrightarrow>
     occ = (get_datetime (DTSTART cmp), get_datetime (DTEND cmp), 0)"
proof (cases n)
  case 0
  assume "occ \<in> set (single_emitted cmp ts te n)"
  with 0 show ?thesis by (simp add: single_emitted_def)
next
  case (Suc k)
  assume "occ \<in> set (single_emitted cmp ts te n)"
  with Suc show ?thesis
    by (cases k)
       (auto simp: single_emitted_def EventSingleIter_init_def EventSingleIter_next_def Let_def
             split: if_splits)
qed

lemma days_emitted_duration:
  "\<forall>occ \<in> set (emitted EventRecurDaysIter_next n self).
     dt_sub (occ_end occ) (occ_start occ) = days_duration self \<and> occ_rec occ = 1"
proof (induction n arbitrary: self)
  case 0
  show ?case by simp
next
  case (Suc n)
  show ?case
  proof (rule days_next_cases [OF refl, of self])
    assume "EventRecurDaysIter_next self = Inr (None, self)"
    then show ?thesis by simp
  next
    fix self'
    assume r: "EventRecurDaysIter_next self = Inr (Some (days_current self,
        normalize (tz (days_current self)) (dt_add (days_current self) (days_duration self)),
        1), self')"
      and d: "days_duration self' = days_duration self"
    from Suc.IH [of self'] d r show ?thesis
      by (simp add: occ_end_def occ_start_def occ_rec_def dt_sub_def)
  qed
qed

lemma days_init_duration:
  assumes "EventRecurDaysIter_init days cmp ts te = Some (Inr self)"
  shows "days_duration self = template_duration cmp"
  using assms
  by (auto simp: EventRecurDaysIter_init_def template_duration_def Let_def
           split: option.splits if_splits sum.splits)

lemma yearly_emitted_duration:
  "\<forall>occ \<in> set (emitted EventRecurYearlyIter_next n self).
     dt_sub (occ_end occ) (occ_start occ) = yr_duration self \<and> occ_rec occ = 1"
proof (induction n arbitrary: self)
  case 0
  show ?case by simp
next
  case (Suc n)
  show ?case
  proof (cases "EventRecurYearlyIter_next self")
    case (Inl e)
    then show ?thesis by simp
  next
    case (Inr p)
    obtain o' self' where p: "p = (o', self')" by (cases p)
    show ?thesis
    proof (cases o')
      case None
      with Inr p show ?thesis by simp
    next
      case (Some occ)
      with Inr p have e: "EventRecurYearlyIter_next self = Inr (Some occ, self')" by simp
      from yearly_next_emit [OF e] Suc.IH [of self'] e show ?thesis by simp
    qed
  qed
qed

lemma yearly_init_duration:
  assumes "EventRecurYearlyIter_init cmp ts te = Inr self"
  shows "yr_n self = 0 \<or> yr_duration self = template_duration cmp"
  using assms
  by (auto simp: EventRecurYearlyIter_init_def template_duration_def Let_def
           split: option.splits if_splits)

lemma yearly_emitted_n0: "yr_n self = 0 \<Longrightarrow> emitted EventRecurYearlyIter_next n self = []"
  by (cases n) (simp_all add: EventRecurYearlyIter_next.simps)

text \<open>
  C9. Every element handed out by a generator, of any of the three families, ends
  exactly the duration of the event after it starts (\<^verbatim>\<open>DTEND - DTSTART\<close>, as elapsed
  time), and its flag is 0 for the single-event generator and 1 for the two recurring
  ones.
\<close>

theorem occurrence_duration_and_flag:
  "(\<forall>occ \<in> set (single_emitted cmp ts te n).
      dt_sub (occ_end occ) (occ_start occ) = template_duration cmp \<and> occ_rec occ = 0)
   \<and> (\<forall>occ \<in> set (days_emitted days cmp ts te n).
      dt_sub (occ_end occ) (occ_start occ) = template_duration cmp \<and> occ_rec occ = 1)
   \<and> (\<forall>occ \<in> set (yearly_emitted cmp ts te n).
      dt_sub (occ_end occ) (occ_start occ) = template_duration cmp \<and> occ_rec occ = 1)"
proof (intro conjI ballI)
  fix occ
  assume "occ \<in> set (single_emitted cmp ts te n)"
  then have "occ = (get_datetime (DTSTART cmp), get_datetime (DTEND cmp), 0)"
    by (rule single_emitted_elements)
  then show "dt_sub (occ_end occ) (occ_start occ) = template_duration cmp"
    and "occ_rec occ = 0"
    by (simp_all add: occ_end_def occ_start_def occ_rec_def template_duration_def)
next
  fix occ
  assume a: "occ \<in> set (days_emitted days cmp ts te n)"
  then obtain self where i: "EventRecurDaysIter_init days cmp ts te = Some (Inr self)"
    and m: "occ \<in> set (emitted EventRecurDaysIter_next n self)"
    by (cases "EventRecurDaysIter_init days cmp ts te")
       (auto simp: days_emitted_def split: sum.splits)
  from m days_emitted_duration [of n self] days_init_duration [OF i]
  show "dt_sub (occ_end occ) (occ_start occ) = template_duration cmp"
    and "occ_rec occ = 1"
    by simp_all
next
  fix occ
  assume a: "occ \<in> set (yearly_emitted cmp ts te n)"
  then obtain self where i: "EventRecurYearlyIter_init cmp ts te = Inr self"
    and m: "occ \<in> set (emitted EventRecurYearlyIter_next n self)"
    by (cases "EventRecurYearlyIter_init cmp ts te") (auto simp: yearly_emitted_def)
  have "yr_n self \<noteq> 0"
  proof
    assume "yr_n self = 0"
    then have "emitted EventRecurYearlyIter_next n self = []" by (rule yearly_emitted_n0)
    with m show False by simp
  qed
  with yearly_init_duration [OF i] have "yr_duration self = template_duration cmp" by simp
  with m yearly_emitted_duration [of n self]
  show "dt_sub (occ_end occ) (occ_start occ) = template_duration cmp"
    and "occ_rec occ = 1"
    by simp_all
qed

text \<open>
  The meeting, alone, weekly and yearly, in the window of the year 2023: each generator
  hands out elements, and they last the hour of the meeting.
\<close>

theorem occurrence_duration_and_flag_witness:
  "single_emitted meeting year_2023_start year_2023_end 5 \<noteq> []
   \<and> list_all (\<lambda>occ. dt_sub (occ_end occ) (occ_start occ) = 3600000000 \<and> occ_rec occ = 0)
        (single_emitted meeting year_2023_start year_2023_end 5)
   \<and> days_emitted 7 weekly_meeting year_2023_start year_2023_end 5 \<noteq> []
   \<and> list_all (\<lambda>occ. dt_sub (occ_end occ) (occ_start occ) = 3600000000 \<and> occ_rec occ = 1)
        (days_emitted 7 weekly_meeting year_2023_start year_2023_end 5)
   \<and> yearly_emitted yearly_meeting year_2023_start year_2023_end 5 \<noteq> []
   \<and> list_all (\<lambda>occ. dt_sub (occ_end occ) (occ_start occ) = 3600000000 \<and> occ_rec occ = 1)
        (yearly_emitted yearly_meeting year_2023_start year_2023_end 5)"
proof -
  have d1: "template_duration meeting = 3600000000"
    and d2: "template_duration weekly_meeting = 3600000000"
    and d3: "template_duration yearly_meeting = 3600000000"
    by (simp_all add: example_defs template_duration_def calendar_defs datetime_defs Let_def
          cong: let_weak_cong)
  have n1: "single_emitted meeting year_2023_start year_2023_end 5 \<noteq> []"
    by (simp add: example_defs calendar_defs datetime_defs iter_defs Let_def
          cong: let_weak_cong)
  have n2: "days_emitted 7 weekly_meeting year_2023_start year_2023_end 5 \<noteq> []"
    by (simp add: example_defs calendar_defs datetime_defs iter_defs Let_def
          cong: let_weak_cong)
  have n3: "yearly_emitted yearly_meeting year_2023_start year_2023_end 5 \<noteq> []"
    by (simp add: example_defs calendar_defs datetime_defs iter_defs Let_def
          cong: let_weak_cong)
  from occurrence_duration_and_flag
      [where cmp = meeting and ts = year_2023_start and te = year_2023_end and n = 5 and days = 7]
    occurrence_duration_and_flag
      [where cmp = weekly_meeting and ts = year_2023_start and te = year_2023_end and n = 5
         and days = 7]
    occurrence_duration_and_flag
      [where cmp = yearly_meeting and ts = year_2023_start and te = year_2023_end and n = 5
         and days = 7]
  show ?thesis
    using d1 d2 d3 n1 n2 n3 by (simp add: list_all_iff)
qed

subsection \<open>The single-event generator\<close>

lemma single_consume:
  "consume EventSingleIter_next (Suc (Suc n)) (EventSingleIter_init cmp ts te) =
     Some (if dt_lt (get_datetime (DTSTART cmp)) te \<and> dt_gt (get_datetime (DTEND cmp)) ts
           then [(get_datetime (DTSTART cmp), get_datetime (DTEND cmp), 0)] else [], None)"
  by (simp add: EventSingleIter_init_def EventSingleIter_next_def Let_def)

lemma single_emitted_length: "length (single_emitted cmp ts te m) \<le> 1"
proof (cases m)
  case 0
  then show ?thesis by (simp add: single_emitted_def)
next
  case (Suc k)
  then show ?thesis
    by (cases k)
       (simp_all add: single_emitted_def EventSingleIter_init_def EventSingleIter_next_def
          Let_def)
qed

text \<open>
  C5. For an event without a rule and any window, the loop over the single-event
  generator ends (two calls of \<^verbatim>\<open>next\<close> are enough) and has seen exactly one
  element, the event itself, if the event starts before the end of the window and ends
  after its start, and no element otherwise; in particular none when the event ends
  at the instant the window starts or starts at the instant the window ends. However
  many calls are made, at most one element is handed out.
\<close>

theorem single_occurrence_iff_overlap:
  "consume EventSingleIter_next (Suc (Suc n)) (EventSingleIter_init cmp ts te) =
     Some (if dt_lt (get_datetime (DTSTART cmp)) te \<and> dt_gt (get_datetime (DTEND cmp)) ts
           then [(get_datetime (DTSTART cmp), get_datetime (DTEND cmp), 0)] else [], None)
   \<and> (utc_of (get_datetime (DTEND cmp)) = utc_of ts
        \<or> utc_of (get_datetime (DTSTART cmp)) = utc_of te
      \<longrightarrow> consume EventSingleIter_next (Suc (Suc n)) (EventSingleIter_init cmp ts te)
          = Some ([], None))
   \<and> length (single_emitted cmp ts te m) \<le> 1"
proof -
  have "utc_of (get_datetime (DTEND cmp)) = utc_of ts
        \<or> utc_of (get_datetime (DTSTART cmp)) = utc_of te
      \<longrightarrow> consume EventSingleIter_next (Suc (Suc n)) (EventSingleIter_init cmp ts te)
          = Some ([], None)"
    unfolding single_consume by (auto simp: dt_lt_def dt_gt_def)
  with single_consume [of n cmp ts te] single_emitted_length [of cmp ts te m]
  show ?thesis by blast
qed

text \<open>
  The meeting of March lies in the window of the year 2023 and is handed out once; the
  event that ends at midnight of the new year touches the window and is not.
\<close>

theorem single_occurrence_iff_overlap_witness:
  "consume EventSingleIter_next 2 (EventSingleIter_init meeting year_2023_start year_2023_end)
     = Some ([(datetime_utc 2023 3 1 9 0, datetime_utc 2023 3 1 10 0, 0)], None)
   \<and> utc_of (get_datetime (DTEND new_year_eve)) = utc_of year_2023_start
   \<and> consume EventSingleIter_next 2
        (EventSingleIter_init new_year_eve year_2023_start year_2023_end) = Some ([], None)"
proof -
  have t: "utc_of (get_datetime (DTEND new_year_eve)) = utc_of year_2023_start"
    by (simp add: example_defs)
  have o: "dt_lt (get_datetime (DTSTART meeting)) year_2023_end
      \<and> dt_gt (get_datetime (DTEND meeting)) year_2023_start"
    by (simp add: example_defs calendar_defs datetime_defs)
  have m: "get_datetime (DTSTART meeting) = datetime_utc 2023 3 1 9 0"
    "get_datetime (DTEND meeting) = datetime_utc 2023 3 1 10 0"
    by (simp_all add: example_defs)
  note a = single_occurrence_iff_overlap
    [of 0 meeting year_2023_start year_2023_end 0, THEN conjunct1]
  note b = single_occurrence_iff_overlap
    [of 0 new_year_eve year_2023_start year_2023_end 0, THEN conjunct2, THEN conjunct1]
  have c1: "consume EventSingleIter_next 2
      (EventSingleIter_init meeting year_2023_start year_2023_end)
     = Some ([(datetime_utc 2023 3 1 9 0, datetime_utc 2023 3 1 10 0, 0)], None)"
    unfolding numeral_2_eq_2 a using o m by simp
  have c2: "consume EventSingleIter_next 2
      (EventSingleIter_init new_year_eve year_2023_start year_2023_end) = Some ([], None)"
    unfolding numeral_2_eq_2 using b t by blast
  from c1 t c2 show ?thesis by blast
qed

subsection \<open>The dispatcher\<close>

lemma days_init_malformed:
  "RRULE cmp = Some r \<Longrightarrow> COUNT r \<noteq> None \<Longrightarrow> UNTIL r \<noteq> None \<Longrightarrow>
     EventRecurDaysIter_init days cmp ts te = Some (Inl MalformedRule)"
  by (simp add: EventRecurDaysIter_init_def Let_def)

text \<open>
  The constructor of the daily and weekly generator raises in two cases: a rule with
  both COUNT and UNTIL, and a step of zero days for an event that starts before a
  window which the recurrence reaches. Neither depends on the number of days of the
  frequency, so the weekly and the daily constructor raise together.
\<close>

lemma days_init_error_iff:
  assumes "RRULE cmp = Some r"
  shows "EventRecurDaysIter_init days cmp ts te = Some (Inl e) \<longleftrightarrow>
     (UNTIL r \<noteq> None \<and> COUNT r \<noteq> None \<and> e = MalformedRule)
     \<or> (\<not> (UNTIL r \<noteq> None \<and> COUNT r \<noteq> None)
        \<and> \<not> dt_lt (case UNTIL r of Some u \<Rightarrow> astimezone (get_datetime u) utc | None \<Rightarrow> te) ts
        \<and> dt_lt (get_datetime (DTSTART cmp)) ts
        \<and> delta_days_of days r = 0 \<and> e = ZeroDivisionError)"
  using assms
  by (auto simp: EventRecurDaysIter_init_def advance_just_before_def Let_def
           split: option.splits if_splits)

lemma delta_days_zero_iff: "delta_days_of 1 r = 0 \<longleftrightarrow> delta_days_of 7 r = 0"
  by (simp add: delta_days_of_def split: option.splits)

lemma daily_weekly_raise_together:
  assumes "RRULE cmp = Some r"
  shows "EventRecurDaysIter_init 1 cmp ts te = Some (Inl e)
     \<longleftrightarrow> EventRecurDaysIter_init 7 cmp ts te = Some (Inl e)"
  unfolding days_init_error_iff [OF assms] delta_days_zero_iff ..

lemma yearly_init_error:
  assumes "RRULE cmp = Some r" and "EventRecurYearlyIter_init cmp ts te = Inl e"
  shows "e = MalformedRule \<and> COUNT r \<noteq> None \<and> UNTIL r \<noteq> None"
  using assms
  by (auto simp: EventRecurYearlyIter_init_def Let_def split: option.splits if_splits)

text \<open>
  The loop of the constructor does not end when the step is not positive, the current
  time is before the window and the zone has one offset.
\<close>

lemma advance_while_diverges:
  assumes "delta \<le> 0" and "dt_lt c0 ts"
    and "\<forall>a. tz_localize (tz c0) a = utcoff c0"
  shows "advance_while c0 delta ts = None"
proof (cases "advance_while c0 delta ts")
  case None
  then show ?thesis .
next
  case (Some c)
  have "delta \<le> 0 \<and> dt_lt c0 ts \<and> (\<forall>a. tz_localize (tz c0) a = utcoff c0) \<longrightarrow> False"
  proof (rule advance_while.raw_induct
      [where P = "\<lambda>c0 delta ts c. delta \<le> 0 \<and> dt_lt c0 ts
         \<and> (\<forall>a. tz_localize (tz c0) a = utcoff c0) \<longrightarrow> False", OF _ Some])
    fix f c0 delta ts c
    assume IH: "\<And>c0 delta ts c. f c0 delta ts = Some c \<Longrightarrow>
        delta \<le> 0 \<and> dt_lt c0 ts \<and> (\<forall>a. tz_localize (tz c0) a = utcoff c0) \<longrightarrow> False"
      and eq: "(if dt_lt c0 ts then f (add_delta_dst c0 delta) delta ts else Some c0) = Some c"
    show "delta \<le> 0 \<and> dt_lt c0 ts \<and> (\<forall>a. tz_localize (tz c0) a = utcoff c0) \<longrightarrow> False"
    proof
      assume a: "delta \<le> 0 \<and> dt_lt c0 ts \<and> (\<forall>a. tz_localize (tz c0) a = utcoff c0)"
      with eq have "f (add_delta_dst c0 delta) delta ts = Some c" by simp
      from IH [OF this] a show False
        by (simp add: dt_lt_def utc_of_def)
    qed
  qed
  with assms show ?thesis by blast
qed

text \<open>
  C10. For an event with a rule, the dispatcher builds the weekly, the daily and the
  yearly generator before it looks at the frequency. An exception raised by the
  constructor of any of the three families is the dispatcher's result, whatever the
  frequency is; if the weekly or the daily constructor does not return, the dispatcher
  does not return; and the dispatcher returns a result only if all three constructors
  have returned, the result being the entry of the frequency. A rule with both COUNT
  and UNTIL therefore fails for every frequency, also for MONTHLY, for which the
  result is the empty list when the three constructors return.
\<close>

theorem dispatcher_builds_every_family:
  assumes "comp_name cmp = ''VEVENT''" and "RRULE cmp = Some r"
  shows "(EventRecurDaysIter_init 7 cmp ts te = Some (Inl e)
            \<longrightarrow> generate_event_iterator cmp ts te = Some (Inl e))
       \<and> (EventRecurDaysIter_init 1 cmp ts te = Some (Inl e)
            \<longrightarrow> generate_event_iterator cmp ts te = Some (Inl e))
       \<and> (EventRecurYearlyIter_init cmp ts te = Inl e
            \<longrightarrow> generate_event_iterator cmp ts te = Some (Inl e))
       \<and> (EventRecurDaysIter_init 7 cmp ts te = None \<or> EventRecurDaysIter_init 1 cmp ts te = None
            \<longrightarrow> generate_event_iterator cmp ts te = None)
       \<and> (\<forall>g. generate_event_iterator cmp ts te = Some (Inr g) \<longrightarrow>
            (\<exists>w d y. EventRecurDaysIter_init 7 cmp ts te = Some (Inr w)
              \<and> EventRecurDaysIter_init 1 cmp ts te = Some (Inr d)
              \<and> EventRecurYearlyIter_init cmp ts te = Inr y
              \<and> map_of [(''WEEKLY'', Days w), (''DAILY'', Days d),
                         (''MONTHLY'', EmptyList), (''YEARLY'', Yearly y)] (FREQ r) = Some g))
       \<and> (COUNT r \<noteq> None \<and> UNTIL r \<noteq> None
            \<longrightarrow> generate_event_iterator cmp ts te = Some (Inl MalformedRule))
       \<and> (\<forall>w d y. FREQ r = ''MONTHLY''
              \<and> EventRecurDaysIter_init 7 cmp ts te = Some (Inr w)
              \<and> EventRecurDaysIter_init 1 cmp ts te = Some (Inr d)
              \<and> EventRecurYearlyIter_init cmp ts te = Inr y
            \<longrightarrow> generate_event_iterator cmp ts te = Some (Inr EmptyList))"
proof -
  let ?W = "EventRecurDaysIter_init 7 cmp ts te"
  let ?D = "EventRecurDaysIter_init 1 cmp ts te"
  let ?Y = "EventRecurYearlyIter_init cmp ts te"
  let ?G = "generate_event_iterator cmp ts te"
  note same = daily_weekly_raise_together [OF assms(2), of ts te]
  have w: "?W = Some (Inl e) \<longrightarrow> ?G = Some (Inl e)"
    using assms by (simp add: generate_event_iterator_def)
  have d: "?D = Some (Inl e) \<longrightarrow> ?G = Some (Inl e)"
    using w same [of e] by blast
  have m: "COUNT r \<noteq> None \<and> UNTIL r \<noteq> None \<longrightarrow> ?G = Some (Inl MalformedRule)"
    using assms by (simp add: generate_event_iterator_def days_init_malformed)
  have y: "?Y = Inl e \<longrightarrow> ?G = Some (Inl e)"
    using yearly_init_error [OF assms(2), of ts te e] m by blast
  have n: "?W = None \<or> ?D = None \<longrightarrow> ?G = None"
  proof
    assume a: "?W = None \<or> ?D = None"
    show "?G = None"
    proof (cases ?W)
      case None
      with assms show ?thesis by (simp add: generate_event_iterator_def)
    next
      case (Some res)
      with a have dn: "?D = None" by simp
      show ?thesis
      proof (cases res)
        case (Inl e')
        with Some same [of e'] dn show ?thesis by simp
      next
        case (Inr w')
        with Some dn assms show ?thesis by (simp add: generate_event_iterator_def)
      qed
    qed
  qed
  have g: "\<forall>g. ?G = Some (Inr g) \<longrightarrow>
      (\<exists>w d y. ?W = Some (Inr w) \<and> ?D = Some (Inr d) \<and> ?Y = Inr y
        \<and> map_of [(''WEEKLY'', Days w), (''DAILY'', Days d),
                   (''MONTHLY'', EmptyList), (''YEARLY'', Yearly y)] (FREQ r) = Some g)"
    using assms
    by (auto simp: generate_event_iterator_def split: option.splits sum.splits)
  have e: "\<forall>w d y. FREQ r = ''MONTHLY'' \<and> ?W = Some (Inr w) \<and> ?D = Some (Inr d) \<and> ?Y = Inr y
      \<longrightarrow> ?G = Some (Inr EmptyList)"
    using assms by (auto simp: generate_event_iterator_def)
  from w d y n g m e show ?thesis by blast
qed

text \<open>
  Three events. The monthly meeting with COUNT 3 and an UNTIL fails in the weekly
  constructor. For the weekly event with interval -1 and the window from 8 January the
  weekly constructor returns (the jump lands in the window) and the daily constructor
  does not (it steps backwards from 7 January), and so the dispatcher does not return,
  although the frequency is WEEKLY. For the monthly meeting all three constructors
  return and the result is the empty list.
\<close>

theorem dispatcher_builds_every_family_witness:
  "generate_event_iterator monthly_count_until year_2023_start year_2023_end
     = Some (Inl MalformedRule)
   \<and> map_option (map_sum id days_count)
        (EventRecurDaysIter_init 7 weekly_backwards jan_8 year_2023_end) = Some (Inr 0)
   \<and> EventRecurDaysIter_init 1 weekly_backwards jan_8 year_2023_end = None
   \<and> generate_event_iterator weekly_backwards jan_8 year_2023_end = None
   \<and> map_option (map_sum id days_count)
        (EventRecurDaysIter_init 1 monthly_meeting year_2023_start year_2023_end)
      = Some (Inr 0)
   \<and> map_sum id yr_years
        (EventRecurYearlyIter_init monthly_meeting year_2023_start year_2023_end)
      = Inr [2023, 2024]
   \<and> generate_event_iterator monthly_meeting year_2023_start year_2023_end
     = Some (Inr EmptyList)"
proof -
  have n1: "comp_name monthly_count_until = ''VEVENT''"
    and n2: "comp_name weekly_backwards = ''VEVENT''"
    and n3: "comp_name monthly_meeting = ''VEVENT''"
    by (simp_all add: example_defs)
  have r1: "RRULE monthly_count_until = Some ((no_rule ''MONTHLY'')
        \<lparr>COUNT := Some 3, UNTIL := Some (PyDateTime (datetime_utc 2023 9 1 0 0))\<rparr>)"
    and r2: "RRULE weekly_backwards = Some ((no_rule ''WEEKLY'')\<lparr>INTERVAL := Some (- 1)\<rparr>)"
    and r3: "RRULE monthly_meeting = Some (no_rule ''MONTHLY'')"
    by (simp_all add: example_defs)
  note t1 = dispatcher_builds_every_family [OF n1 r1, of year_2023_start year_2023_end]
  note t2 = dispatcher_builds_every_family [OF n2 r2, of jan_8 year_2023_end]
  note t3 = dispatcher_builds_every_family [OF n3 r3, of year_2023_start year_2023_end]
  from t1 have a: "generate_event_iterator monthly_count_until year_2023_start year_2023_end
     = Some (Inl MalformedRule)"
    by simp
  have b: "map_option (map_sum id days_count)
        (EventRecurDaysIter_init 7 weekly_backwards jan_8 year_2023_end) = Some (Inr 0)"
    by (simp add: example_defs calendar_defs datetime_defs iter_defs Let_def
          cong: let_weak_cong)
  have c: "EventRecurDaysIter_init 1 weekly_backwards jan_8 year_2023_end = None"
    by (simp add: example_defs calendar_defs datetime_defs EventRecurDaysIter_init_def
          advance_just_before_def delta_days_of_def advance_while_diverges Let_def
          cong: let_weak_cong)
  from t2 c have d: "generate_event_iterator weekly_backwards jan_8 year_2023_end = None"
    by blast
  have w: "map_option (map_sum id days_count)
        (EventRecurDaysIter_init 7 monthly_meeting year_2023_start year_2023_end)
      = Some (Inr 0)"
    and e: "map_option (map_sum id days_count)
        (EventRecurDaysIter_init 1 monthly_meeting year_2023_start year_2023_end)
      = Some (Inr 0)"
    and f: "map_sum id yr_years
        (EventRecurYearlyIter_init monthly_meeting year_2023_start year_2023_end)
      = Inr [2023, 2024]"
    by (simp_all add: example_defs calendar_defs datetime_defs iter_defs Let_def
          cong: let_weak_cong)
  from w obtain w' where w': "EventRecurDaysIter_init 7 monthly_meeting year_2023_start
      year_2023_end = Some (Inr w')"
    by (cases "EventRecurDaysIter_init 7 monthly_meeting year_2023_start year_2023_end")
       (auto simp: map_sum_def split: sum.splits)
  from e obtain d' where d': "EventRecurDaysIter_init 1 monthly_meeting year_2023_start
      year_2023_end = Some (Inr d')"
    by (cases "EventRecurDaysIter_init 1 monthly_meeting year_2023_start year_2023_end")
       (auto simp: map_sum_def split: sum.splits)
  from f obtain y' where y': "EventRecurYearlyIter_init monthly_meeting year_2023_start
      year_2023_end = Inr y'"
    by (cases "EventRecurYearlyIter_init monthly_meeting year_2023_start year_2023_end")
       auto
  have m: "FREQ (no_rule ''MONTHLY'') = ''MONTHLY''"
    by (simp add: no_rule_def)
  from t3 m w' d' y'
  have g: "generate_event_iterator monthly_meeting year_2023_start year_2023_end
     = Some (Inr EmptyList)"
    by blast
  from a b c d e f g show ?thesis by blast
qed

subsection \<open>The jump to the day before the window\<close>







subsection \<open>The daily and weekly generator with an UNTIL\<close>

lemma advance_while_result:
  assumes ret: "advance_while c0 delta ts = Some c"
  shows "\<not> dt_lt c ts \<and> tz c = tz c0
     \<and> (c = c0 \<or> utcoff c = tz_localize (tz c0) (naive c))"
proof (rule advance_while.raw_induct
    [where P = "\<lambda>c0 delta ts c. \<not> dt_lt c ts \<and> tz c = tz c0
       \<and> (c = c0 \<or> utcoff c = tz_localize (tz c0) (naive c))", OF _ ret])
  fix f c0 delta ts c
  assume IH: "\<And>c0 delta ts c. f c0 delta ts = Some c \<Longrightarrow>
      \<not> dt_lt c ts \<and> tz c = tz c0 \<and> (c = c0 \<or> utcoff c = tz_localize (tz c0) (naive c))"
    and eq: "(if dt_lt c0 ts then f (add_delta_dst c0 delta) delta ts else Some c0) = Some c"
  show "\<not> dt_lt c ts \<and> tz c = tz c0 \<and> (c = c0 \<or> utcoff c = tz_localize (tz c0) (naive c))"
  proof (cases "dt_lt c0 ts")
    case True
    with eq have "f (add_delta_dst c0 delta) delta ts = Some c" by simp
    from IH [OF this] show ?thesis by auto
  next
    case False
    with eq show ?thesis by simp
  qed
qed

text \<open>
  The loop ends when the step is positive and the offsets of the zone are bounded: the
  wall clock grows by the step in every round, and the loop is over once it has passed
  the start of the window by the bound.
\<close>

lemma advance_while_terminates:
  assumes "0 < delta" and "\<forall>a. tz_localize (tz c0) a \<le> B" and "utcoff c0 \<le> B"
  shows "\<exists>c. advance_while c0 delta ts = Some c"
  using assms
proof (induction "nat (utc_of ts + B - naive c0)" arbitrary: c0 rule: less_induct)
  case less
  show ?case
  proof (cases "dt_lt c0 ts")
    case False
    then show ?thesis by (subst advance_while.simps) simp
  next
    case True
    let ?c1 = "add_delta_dst c0 delta"
    from True less.prems(3) have "naive c0 < utc_of ts + B"
      by (simp add: dt_lt_def utc_of_def)
    with less.prems(1) have m: "nat (utc_of ts + B - naive ?c1) < nat (utc_of ts + B - naive c0)"
      by simp
    have z: "\<forall>a. tz_localize (tz ?c1) a \<le> B" and o: "utcoff ?c1 \<le> B"
      using less.prems(2) by simp_all
    from m less.prems(1) z o have "\<exists>c. advance_while ?c1 delta ts = Some c"
      by (rule less.hyps)
    with True show ?thesis by (subst advance_while.simps) simp
  qed
qed

text \<open>
  In the UNTIL mode every element starts at or before \<^verbatim>\<open>until_utc\<close>, and no element
  starts before the first one: a step moves the wall clock by at least a day and the
  offset by at most a day.
\<close>

lemma until_run_bounds:
  assumes "\<not> days_is_count self" and "usec_per_day \<le> days_delta self"
    and "\<forall>a. tz_localize (tz (days_current self)) a - utcoff (days_current self)
           \<le> usec_per_day"
    and "\<forall>a b. tz_localize (tz (days_current self)) a - tz_localize (tz (days_current self)) b
           \<le> usec_per_day"
    and "lo \<le> utc_of (days_current self)"
  shows "\<forall>occ \<in> set (emitted EventRecurDaysIter_next n self).
     lo \<le> utc_of (occ_start occ) \<and> utc_of (occ_start occ) \<le> utc_of (days_until_utc self)"
  using assms
proof (induction n arbitrary: self)
  case 0
  show ?case by simp
next
  case (Suc n)
  show ?case
  proof (rule days_next_cases [OF refl, of self])
    assume "EventRecurDaysIter_next self = Inr (None, self)"
    then show ?thesis by simp
  next
    fix self'
    assume r: "EventRecurDaysIter_next self = Inr (Some (days_current self,
        normalize (tz (days_current self)) (dt_add (days_current self) (days_duration self)),
        1), self')"
      and c: "days_current self' = add_delta_dst (days_current self) (days_delta self)"
      and d: "days_delta self' = days_delta self"
      and u: "days_until_utc self' = days_until_utc self"
      and m: "days_is_count self' = days_is_count self"
      and b: "\<not> days_is_count self \<Longrightarrow> \<not> dt_gt (days_current self) (days_until_utc self)"
    from b Suc.prems(1) have le: "utc_of (days_current self) \<le> utc_of (days_until_utc self)"
      by (simp add: dt_gt_def)
    from Suc.prems(3) [rule_format, of "naive (days_current self) + days_delta self"]
      Suc.prems(2,5)
    have lo': "lo \<le> utc_of (days_current self')"
      by (simp add: c utc_of_def)
    have "\<forall>occ \<in> set (emitted EventRecurDaysIter_next n self').
        lo \<le> utc_of (occ_start occ) \<and> utc_of (occ_start occ) \<le> utc_of (days_until_utc self')"
      using Suc.prems(1,2,4) lo' by (intro Suc.IH) (simp_all add: c d m)
    with r le Suc.prems(5) u show ?thesis
      by (simp add: occ_start_def)
  qed
qed

text \<open>The wall clocks of the elements: the current time and its multiples of the step.\<close>

lemma days_emitted_wall_clocks:
  "map (naive \<circ> occ_start) (emitted EventRecurDaysIter_next n self) =
     map (\<lambda>i. naive (days_current self) + int i * days_delta self)
       [0 ..< length (emitted EventRecurDaysIter_next n self)]"
proof (induction n arbitrary: self)
  case 0
  show ?case by simp
next
  case (Suc n)
  show ?case
  proof (rule days_next_cases [OF refl, of self])
    assume "EventRecurDaysIter_next self = Inr (None, self)"
    then show ?thesis by simp
  next
    fix self'
    assume r: "EventRecurDaysIter_next self = Inr (Some (days_current self,
        normalize (tz (days_current self)) (dt_add (days_current self) (days_duration self)),
        1), self')"
      and c: "days_current self' = add_delta_dst (days_current self) (days_delta self)"
      and d: "days_delta self' = days_delta self"
    from Suc.IH [of self'] r c d show ?thesis
      by (simp add: occ_start_def map_upt_Suc algebra_simps del: upt_Suc)
  qed
qed

lemma days_emitted_consecutive:
  assumes "Suc i < length (emitted EventRecurDaysIter_next n self)"
  shows "naive (occ_start (emitted EventRecurDaysIter_next n self ! Suc i))
     - naive (occ_start (emitted EventRecurDaysIter_next n self ! i)) = days_delta self"
proof -
  let ?xs = "emitted EventRecurDaysIter_next n self"
  have "naive (occ_start (?xs ! j)) = naive (days_current self) + int j * days_delta self"
    if "j < length ?xs" for j
  proof -
    from that have "naive (occ_start (?xs ! j)) = map (naive \<circ> occ_start) ?xs ! j"
      by simp
    also have "\<dots> = naive (days_current self) + int j * days_delta self"
      unfolding days_emitted_wall_clocks using that by simp
    finally show ?thesis .
  qed
  from this [of i] this [of "Suc i"] assms show ?thesis
    by (simp add: algebra_simps)
qed

text \<open>
  What the constructor leaves behind for a rule with an UNTIL: either the current time
  is one step after an UNTIL that lies before the window, or the current time is not
  before the window and \<^verbatim>\<open>until_utc\<close> is the earlier of the UNTIL and the window end.
\<close>

lemma days_init_until_state:
  assumes r: "RRULE cmp = Some r" and u: "UNTIL r = Some u"
    and i: "EventRecurDaysIter_init days cmp ts te = Some (Inr self)"
  shows "\<not> days_is_count self \<and> days_delta self = delta_days_of days r * usec_per_day
     \<and> (days_current self = dt_add (days_until_utc self) (days_delta self)
        \<or> \<not> dt_lt (days_current self) ts
          \<and> tz (days_current self) = tz (get_datetime (DTSTART cmp))
          \<and> (utcoff (days_current self) = utcoff (get_datetime (DTSTART cmp))
             \<or> utcoff (days_current self)
                = tz_localize (tz (days_current self)) (naive (days_current self)))
          \<and> utc_of (days_until_utc self) = min (utc_of (get_datetime u)) (utc_of te))"
proof -
  let ?start = "get_datetime (DTSTART cmp)"
  let ?dd = "delta_days_of days r"
  from r u i have nc: "COUNT r = None"
    by (auto simp: EventRecurDaysIter_init_def Let_def split: if_splits)
  show ?thesis
  proof (cases "dt_lt (astimezone (get_datetime u) utc) ts")
    case True
    with r u nc i show ?thesis
      by (auto simp: EventRecurDaysIter_init_def Let_def timedelta_def)
  next
    case False
    note late = this
    show ?thesis
    proof (cases "dt_lt ?start ts")
      case False
      with late r u nc i show ?thesis
        by (auto simp: EventRecurDaysIter_init_def Let_def timedelta_def)
    next
      case True
      let ?k = "(toordinal ts - toordinal ?start - 1) div ?dd"
      let ?c0 = "add_delta_dst ?start (timedelta (?dd * ?k))"
      from True late r u nc i have z: "?dd \<noteq> 0"
        by (auto simp: EventRecurDaysIter_init_def advance_just_before_def Let_def
              split: if_splits)
      from True late r u nc i z obtain c
        where w: "advance_while ?c0 (timedelta ?dd) ts = Some c"
          and s: "self = \<lparr>days_ev_start = ?start,
                days_ev_end = get_datetime (DTEND cmp),
                days_duration = dt_sub (get_datetime (DTEND cmp)) ?start,
                days_is_count = False,
                days_count = 0,
                days_delta = timedelta ?dd,
                days_until_utc = dt_min (astimezone (get_datetime u) utc) te,
                days_current = c\<rparr>"
        by (auto simp: EventRecurDaysIter_init_def advance_just_before_def Let_def
              split: option.splits)
      from advance_while_result [OF w]
      have "\<not> dt_lt c ts" and "tz c = tz ?start"
        and "utcoff c = tz_localize (tz c) (naive c)"
        by auto
      with s show ?thesis
        by (simp add: timedelta_def)
    qed
  qed
qed

text \<open>The constructor returns when the step is positive and the offsets are bounded.\<close>

lemma days_init_returns:
  assumes p: "0 < delta_days_of days r" and r: "RRULE cmp = Some r"
    and z: "offsets_within_a_day (get_datetime (DTSTART cmp))"
  shows "\<exists>res. EventRecurDaysIter_init days cmp ts te = Some res"
proof -
  let ?start = "get_datetime (DTSTART cmp)"
  let ?dd = "delta_days_of days r"
  let ?k = "(toordinal ts - toordinal ?start - 1) div ?dd"
  let ?c0 = "add_delta_dst ?start (timedelta (?dd * ?k))"
  from p have "0 < timedelta ?dd"
    using usec_per_day_pos by (simp add: timedelta_def)
  moreover from z have "\<forall>a. tz_localize (tz ?c0) a \<le> utcoff ?start + usec_per_day"
    by (simp add: offsets_within_a_day_def) (metis add.commute diff_le_eq)
  moreover from z have "utcoff ?c0 \<le> utcoff ?start + usec_per_day"
    by (simp add: offsets_within_a_day_def) (metis add.commute diff_le_eq)
  ultimately obtain c where "advance_while ?c0 (timedelta ?dd) ts = Some c"
    using advance_while_terminates by blast
  with p r show ?thesis
    by (simp add: EventRecurDaysIter_init_def advance_just_before_def Let_def)
qed

lemma until_run_empty:
  assumes "\<not> days_is_count self" and "dt_gt (days_current self) (days_until_utc self)"
  shows "emitted EventRecurDaysIter_next n self = []"
  using assms by (cases n) (simp_all add: EventRecurDaysIter_next_def next_until_def)

text \<open>
  For a rule with an UNTIL, a positive step in days (7 or 1 times the interval) and an
  event whose zone keeps its offsets within a day, the constructor returns; every
  element handed out starts at or after the start of the window and at or before the
  earlier of the UNTIL and the end of the window; and from one element to the next the
  wall clock of the start moves by exactly the step. (A step of zero days is another
  matter, see the scenarios below.)
\<close>

lemma days_until_occurrences_in_bounds:
  assumes r: "RRULE cmp = Some r" and u: "UNTIL r = Some u"
    and p: "0 < delta_days_of days r"
    and z: "offsets_within_a_day (get_datetime (DTSTART cmp))"
  shows "(\<exists>res. EventRecurDaysIter_init days cmp ts te = Some res)
     \<and> (\<forall>occ \<in> set (days_emitted days cmp ts te n).
          utc_of ts \<le> utc_of (occ_start occ)
          \<and> utc_of (occ_start occ) \<le> min (utc_of (get_datetime u)) (utc_of te))
     \<and> (\<forall>i. Suc i < length (days_emitted days cmp ts te n) \<longrightarrow>
          naive (occ_start (days_emitted days cmp ts te n ! Suc i))
            - naive (occ_start (days_emitted days cmp ts te n ! i))
          = delta_days_of days r * usec_per_day)"
proof -
  from days_init_returns [OF p r z] obtain res
    where res: "EventRecurDaysIter_init days cmp ts te = Some res" by blast
  show ?thesis
  proof (cases res)
    case (Inl e)
    with res show ?thesis by (simp add: days_emitted_def)
  next
    case (Inr self)
    with res have i: "EventRecurDaysIter_init days cmp ts te = Some (Inr self)" by simp
    then have e: "days_emitted days cmp ts te n = emitted EventRecurDaysIter_next n self"
      by (simp add: days_emitted_def)
    note st = days_init_until_state [OF r u i]
    from st have nc: "\<not> days_is_count self"
      and d: "days_delta self = delta_days_of days r * usec_per_day"
      by simp_all
    from p d have day: "usec_per_day \<le> days_delta self"
      using usec_per_day_pos by simp
    have pos: "0 < days_delta self"
      using day usec_per_day_pos by simp
    have bounds: "\<forall>occ \<in> set (emitted EventRecurDaysIter_next n self).
        utc_of ts \<le> utc_of (occ_start occ)
        \<and> utc_of (occ_start occ) \<le> min (utc_of (get_datetime u)) (utc_of te)"
    proof (cases "days_current self = dt_add (days_until_utc self) (days_delta self)")
      case True
      with pos have "dt_gt (days_current self) (days_until_utc self)"
        by (simp add: dt_gt_def)
      with nc have "emitted EventRecurDaysIter_next n self = []"
        by (rule until_run_empty)
      then show ?thesis by simp
    next
      case False
      with st have nb: "\<not> dt_lt (days_current self) ts"
        and t: "tz (days_current self) = tz (get_datetime (DTSTART cmp))"
        and o: "utcoff (days_current self) = utcoff (get_datetime (DTSTART cmp))
             \<or> utcoff (days_current self)
                = tz_localize (tz (days_current self)) (naive (days_current self))"
        and m: "utc_of (days_until_utc self) = min (utc_of (get_datetime u)) (utc_of te)"
        by blast+
      from nb have lo: "utc_of ts \<le> utc_of (days_current self)"
        by (simp add: dt_lt_def)
      from z t o
      have z1: "\<forall>a. tz_localize (tz (days_current self)) a - utcoff (days_current self)
          \<le> usec_per_day"
        by (auto simp: offsets_within_a_day_def)
      from z t
      have z2: "\<forall>a b. tz_localize (tz (days_current self)) a
          - tz_localize (tz (days_current self)) b \<le> usec_per_day"
        by (simp add: offsets_within_a_day_def)
      from until_run_bounds [OF nc day z1 z2 lo, of n] m show ?thesis by simp
    qed
    have steps: "\<forall>i. Suc i < length (emitted EventRecurDaysIter_next n self) \<longrightarrow>
        naive (occ_start (emitted EventRecurDaysIter_next n self ! Suc i))
          - naive (occ_start (emitted EventRecurDaysIter_next n self ! i))
        = delta_days_of days r * usec_per_day"
      using days_emitted_consecutive [of _ n self] d by simp
    from res bounds steps show ?thesis
      unfolding e by blast
  qed
qed

text \<open>
  The Wednesday meeting in the window of the year 2023: the four Wednesdays of January
  are handed out, a week apart, and none from before the window or after the UNTIL.
\<close>

lemma days_until_occurrences_in_bounds_example:
  "0 < delta_days_of 7 ((no_rule ''WEEKLY'')
        \<lparr>UNTIL := Some (PyDateTime (datetime_utc 2023 1 31 0 0))\<rparr>)
   \<and> offsets_within_a_day (get_datetime (DTSTART weekly_until))
   \<and> map (dt_date \<circ> occ_start) (days_emitted 7 weekly_until year_2023_start year_2023_end 9)
       = [(2023, 1, 4), (2023, 1, 11), (2023, 1, 18), (2023, 1, 25)]
   \<and> list_all (\<lambda>occ. utc_of year_2023_start \<le> utc_of (occ_start occ)
          \<and> utc_of (occ_start occ) \<le> utc_of (datetime_utc 2023 1 31 0 0))
        (days_emitted 7 weekly_until year_2023_start year_2023_end 9)
   \<and> naive (occ_start (days_emitted 7 weekly_until year_2023_start year_2023_end 9 ! 1))
        - naive (occ_start (days_emitted 7 weekly_until year_2023_start year_2023_end 9 ! 0))
      = 7 * usec_per_day"
proof -
  let ?r = "(no_rule ''WEEKLY'')\<lparr>UNTIL := Some (PyDateTime (datetime_utc 2023 1 31 0 0))\<rparr>"
  have r: "RRULE weekly_until = Some ?r"
    by (simp add: weekly_until_def)
  have u: "UNTIL ?r = Some (PyDateTime (datetime_utc 2023 1 31 0 0))"
    by simp
  have p: "0 < delta_days_of 7 ?r"
    by (simp add: delta_days_of_def no_rule_def)
  have z: "offsets_within_a_day (get_datetime (DTSTART weekly_until))"
    by (simp add: offsets_within_a_day_def weekly_until_def datetime_utc_def utc_def
          usec_per_day_def)
  have e: "map (dt_date \<circ> occ_start)
      (days_emitted 7 weekly_until year_2023_start year_2023_end 9)
       = [(2023, 1, 4), (2023, 1, 11), (2023, 1, 18), (2023, 1, 25)]"
    by (simp add: example_defs calendar_defs datetime_defs iter_defs Let_def
          cong: let_weak_cong)
  have l: "length (days_emitted 7 weekly_until year_2023_start year_2023_end 9) = 4"
    using arg_cong [OF e, of length] by simp
  have le: "min (utc_of (get_datetime (PyDateTime (datetime_utc 2023 1 31 0 0))))
      (utc_of year_2023_end) = utc_of (datetime_utc 2023 1 31 0 0)"
    by (simp add: example_defs calendar_defs datetime_defs)
  have d: "delta_days_of 7 ?r = 7"
    by (simp add: delta_days_of_def no_rule_def)
  note t = days_until_occurrences_in_bounds
    [OF r u p z, of year_2023_start year_2023_end 9, unfolded le d]
  from t have "\<forall>occ \<in> set (days_emitted 7 weekly_until year_2023_start year_2023_end 9).
      utc_of year_2023_start \<le> utc_of (occ_start occ)
      \<and> utc_of (occ_start occ) \<le> utc_of (datetime_utc 2023 1 31 0 0)"
    by blast
  then have b: "list_all (\<lambda>occ. utc_of year_2023_start \<le> utc_of (occ_start occ)
          \<and> utc_of (occ_start occ) \<le> utc_of (datetime_utc 2023 1 31 0 0))
        (days_emitted 7 weekly_until year_2023_start year_2023_end 9)"
    by (simp only: list_all_iff)
  from t have "Suc 0 < length (days_emitted 7 weekly_until year_2023_start year_2023_end 9)
      \<longrightarrow>
      naive (occ_start (days_emitted 7 weekly_until year_2023_start year_2023_end 9 ! Suc 0))
        - naive (occ_start (days_emitted 7 weekly_until year_2023_start year_2023_end 9 ! 0))
      = 7 * usec_per_day"
    by blast
  with l
  have s: "naive (occ_start (days_emitted 7 weekly_until year_2023_start year_2023_end 9 ! 1))
        - naive (occ_start (days_emitted 7 weekly_until year_2023_start year_2023_end 9 ! 0))
      = 7 * usec_per_day"
    by (simp only: One_nat_def)
  from p z e b s show ?thesis by blast
qed

subsection \<open>The daily and weekly generator with a COUNT\<close>

text \<open>
  In the COUNT mode the loop ends after as many elements as the count that the
  constructor has left, whatever the window is.
\<close>

lemma count_run_length:
  assumes "days_is_count self" and "nat (days_count self) = m"
  shows "\<exists>occs. consume EventRecurDaysIter_next (Suc m + k) self = Some (occs, None)
     \<and> length occs = m"
  using assms
proof (induction m arbitrary: self)
  case 0
  then have "days_count self < 1" by simp
  with "0.prems"(1) have "EventRecurDaysIter_next self = Inr (None, self)"
    by (simp add: EventRecurDaysIter_next_def next_count_def)
  then show ?case by simp
next
  case (Suc m)
  show ?case
  proof (rule days_next_cases [OF refl, of self])
    assume "days_is_count self \<Longrightarrow> days_count self < 1"
    with Suc.prems show ?thesis by simp
  next
    fix self'
    assume r: "EventRecurDaysIter_next self = Inr (Some (days_current self,
        normalize (tz (days_current self)) (dt_add (days_current self) (days_duration self)),
        1), self')"
      and i: "days_is_count self' = days_is_count self"
      and c: "days_is_count self \<Longrightarrow> 1 \<le> days_count self \<and> days_count self' = days_count self - 1"
    from c Suc.prems have "nat (days_count self') = m" by simp
    with i Suc.prems(1) obtain occs
      where "consume EventRecurDaysIter_next (Suc m + k) self' = Some (occs, None)"
        and "length occs = m"
      using Suc.IH [of self'] by auto
    with r show ?thesis by simp
  qed
qed

text \<open>
  The first part of C1 holds: for a rule with COUNT \<open>c\<close> and no UNTIL, an event that
  does not start before the window, and a window that does not end before it starts,
  the loop ends after exactly \<open>c\<close> elements (none for a count below 1).
\<close>

lemma days_count_from_window:
  assumes "RRULE cmp = Some r" and "COUNT r = Some c" and "UNTIL r = None"
    and "\<not> dt_lt (get_datetime (DTSTART cmp)) ts" and "\<not> dt_lt te ts"
  shows "\<exists>occs. days_consume days cmp ts te (Suc (nat c) + k) = Some (occs, None)
     \<and> length occs = nat c"
proof -
  from assms obtain self
    where i: "EventRecurDaysIter_init days cmp ts te = Some (Inr self)"
      and m: "days_is_count self" and n: "days_count self = c"
    by (simp add: EventRecurDaysIter_init_def Let_def)
  from count_run_length [OF m, of "nat c" k] n i show ?thesis
    by (simp add: days_consume_def)
qed

section \<open>The scenarios\<close>












end
